theory Spec2Isabelle
  imports Complex_Main
begin

section \<open>Legend Cut: the per-frame hair-compositing pipeline\<close>

text \<open>
  A shallow embedding of \<^verbatim>\<open>app/utils/face_utils.py\<close> (class FaceDetector) and
  \<^verbatim>\<open>app/utils/hair_overlay.py\<close> (class HairOverlay).

  Conventions of the embedding.
  \<^item> Python floats are modelled by exact rationals (\<^typ>\<open>rat\<close>): the literals
    \<^verbatim>\<open>0.4, 0.6, 0.8, 1.2, 1.8, 0.7, 0.3\<close> are the fractions they denote, and rounding of
    float64/float32 arithmetic is not modelled.
  \<^item> \<^verbatim>\<open>int(v)\<close> on a float truncates toward zero (\<open>py_int\<close>).
  \<^item> A numpy \<^verbatim>\<open>uint8\<close> value is a \<^typ>\<open>nat\<close>; the cast \<^verbatim>\<open>astype(np.uint8)\<close> is
    written out as truncation followed by \<open>mod 256\<close>.
  \<^item> An exception caught by one of the \<^verbatim>\<open>try/except\<close> blocks of the source is a
    \<open>None\<close> of an option type, followed by the handler's return value.
\<close>

subsection \<open>Numbers\<close>

definition py_int :: "rat \<Rightarrow> int" where
  "py_int v = (if 0 \<le> v then \<lfloor>v\<rfloor> else \<lceil>v\<rceil>)"

subsection \<open>Landmarks and regions (face\_utils.py)\<close>

record landmark =
  lm_x :: rat
  lm_y :: rat

text \<open>\<^verbatim>\<open>landmarks.landmark\<close>: the list of points, indexed by the mesh topology.\<close>

type_synonym landmark_set = "landmark list"

text \<open>\<^verbatim>\<open>landmarks.landmark[i]\<close>; an index out of range raises IndexError.\<close>

definition landmark_at :: "landmark_set \<Rightarrow> nat \<Rightarrow> landmark option" where
  "landmark_at lms i = (if i < length lms then Some (lms ! i) else None)"

text \<open>The detector contract of the specification: normalised coordinates in [0,1] x [0,1].\<close>

definition valid_landmarks :: "landmark_set \<Rightarrow> bool" where
  "valid_landmarks lms =
     list_all (\<lambda>p. 0 \<le> lm_x p \<and> lm_x p \<le> 1 \<and> 0 \<le> lm_y p \<and> lm_y p \<le> 1) lms"

record region =
  reg_x :: int
  reg_y :: int
  reg_width :: int
  reg_height :: int
  reg_center_x :: int
  reg_center_y :: int

text \<open>\<^verbatim>\<open>image_shape[:2]\<close> is the pair (h, w).\<close>

type_synonym image_shape = "nat \<times> nat"

definition get_forehead_region :: "landmark_set \<Rightarrow> image_shape \<Rightarrow> region option" where
  "get_forehead_region lms image_shape =
     (let (h, w) = image_shape in
      case landmark_at lms 234 of None \<Rightarrow> None | Some left_temple \<Rightarrow>
     (case landmark_at lms 454 of None \<Rightarrow> None | Some right_temple \<Rightarrow>
     (case landmark_at lms 8 of None \<Rightarrow> None | Some brow_center \<Rightarrow>
     (case landmark_at lms 10 of None \<Rightarrow> None | Some top_forehead \<Rightarrow>
      let left_x = py_int (lm_x left_temple * of_nat w);
          right_x = py_int (lm_x right_temple * of_nat w);
          forehead_height =
            py_int (\<bar>lm_y top_forehead - lm_y brow_center\<bar> * of_nat h * (9 / 5));
          top_y = max 0 (py_int (lm_y top_forehead * of_nat h) - forehead_height);
          bottom_y = py_int (lm_y brow_center * of_nat h);
          width = max 10 (right_x - left_x);
          height = max 10 (bottom_y - top_y)
      in Some \<lparr>reg_x = left_x, reg_y = top_y, reg_width = width, reg_height = height,
               reg_center_x = left_x + width div 2,
               reg_center_y = top_y + height div 2\<rparr>))))"

definition get_hair_region :: "landmark_set \<Rightarrow> image_shape \<Rightarrow> region option" where
  "get_hair_region lms image_shape =
     (case get_forehead_region lms image_shape of
        None \<Rightarrow> None
      | Some forehead \<Rightarrow>
          let x0 = reg_x forehead - py_int (of_int (reg_width forehead) * (2 / 5));
              y0 = reg_y forehead - py_int (of_int (reg_height forehead) * (3 / 5));
              width0 = reg_width forehead + py_int (of_int (reg_width forehead) * (4 / 5));
              height0 = reg_height forehead + py_int (of_int (reg_height forehead) * (6 / 5));
              (h, w) = image_shape;
              x1 = max 0 x0;
              y1 = max 0 y0;
              width1 = min (int w - x1) width0;
              height1 = min (int h - y1) height0
          in Some \<lparr>reg_x = x1, reg_y = y1, reg_width = width1, reg_height = height1,
                   reg_center_x = x1 + width1 div 2,
                   reg_center_y = y1 + height1 div 2\<rparr>)"

subsection \<open>Arrays\<close>

text \<open>
  A three-dimensional \<^verbatim>\<open>uint8\<close> array of shape (rows, columns, channels) is a list of rows
  of pixels, a pixel being the list of its channel values. What \<^verbatim>\<open>cv2.imread\<close> decodes
  is either such an array or a two-dimensional (grayscale) one.
\<close>

type_synonym pixel = "nat list"
type_synonym image = "pixel list list"

datatype decoded = Gray2D "nat list list" | Array3D image

definition img_height :: "'a list list \<Rightarrow> nat" where
  "img_height img = length img"

definition img_width :: "'a list list \<Rightarrow> nat" where
  "img_width img = (case img of [] \<Rightarrow> 0 | r # _ \<Rightarrow> length r)"

text \<open>\<^verbatim>\<open>shape[2]\<close>.\<close>

definition channels :: "image \<Rightarrow> nat" where
  "channels img = (case img of [] \<Rightarrow> 0 | r # _ \<Rightarrow> (case r of [] \<Rightarrow> 0 | p # _ \<Rightarrow> length p))"

text \<open>
  \<^verbatim>\<open>a[r1:r2, c1:c2]\<close> for bounds that are not negative (the only use in the source is
  under the guard \<^verbatim>\<open>hx2 > hx1 and hy2 > hy1\<close>, where all four bounds are at least 0).
\<close>

definition slice2 :: "'a list list \<Rightarrow> int \<Rightarrow> int \<Rightarrow> int \<Rightarrow> int \<Rightarrow> 'a list list" where
  "slice2 a r1 r2 c1 c2 =
     map (\<lambda>row. take (nat c2 - nat c1) (drop (nat c1) row))
         (take (nat r2 - nat r1) (drop (nat r1) a))"

text \<open>
  \<^verbatim>\<open>a[r1:r1+len(block), c1:c1+width(block)] = block\<close>: the rows and columns of the block
  replace those of the array, everything else is kept.
\<close>

definition assign_slice :: "'a list list \<Rightarrow> int \<Rightarrow> int \<Rightarrow> 'a list list \<Rightarrow> 'a list list" where
  "assign_slice a r1 c1 block =
     take (nat r1) a
     @ map2 (\<lambda>row brow. take (nat c1) row @ brow @ drop (nat c1 + length brow) row)
            (take (length block) (drop (nat r1) a)) block
     @ drop (nat r1 + length block) a"

text \<open>\<^verbatim>\<open>astype(np.uint8)\<close> on a float: truncation, then wrap-around modulo 256.\<close>

definition to_uint8 :: "rat \<Rightarrow> nat" where
  "to_uint8 v = nat (py_int v mod 256)"

text \<open>\<^verbatim>\<open>np.clip(v, lo, hi)\<close>.\<close>

definition np_clip :: "rat \<Rightarrow> rat \<Rightarrow> rat \<Rightarrow> rat" where
  "np_clip v lo hi = min hi (max lo v)"

text \<open>
  \<^verbatim>\<open>a.mean()\<close> over all elements. For an array without elements numpy gives nan, and
  \<^verbatim>\<open>nan > 0\<close> is false; here the quotient by zero is 0 and \<open>0 > 0\<close> is false as well,
  so the tests of the source take the same branch.
\<close>

definition np_mean :: "rat list \<Rightarrow> rat" where
  "np_mean vs = sum_list vs / of_nat (length vs)"

definition mean3 :: "rat list list list \<Rightarrow> rat" where
  "mean3 a = np_mean (concat (concat a))"

definition mean2 :: "nat list list \<Rightarrow> rat" where
  "mean2 a = np_mean (map of_nat (concat a))"

subsection \<open>The heap of arrays\<close>

text \<open>
  Arrays that are shared or mutated live in a heap; an address is an index into it.
  \<^verbatim>\<open>a.copy()\<close> and every array a library call creates are allocations.
\<close>

type_synonym heap = "image list"

definition alloc :: "image \<Rightarrow> heap \<Rightarrow> nat \<times> heap" where
  "alloc img hp = (length hp, hp @ [img])"

subsection \<open>Head pose, adjustments, the outside world\<close>

text \<open>The dictionary returned by \<^verbatim>\<open>get_head_pose\<close>: \<^verbatim>\<open>{"success": False}\<close> has no angles.\<close>

record euler =
  euler_x :: rat
  euler_y :: rat
  euler_z :: rat

record head_pose =
  pose_success :: bool
  pose_euler_angles :: "euler option"

text \<open>The adjustments dictionary; a key that is absent is \<open>None\<close>.\<close>

record adjustments =
  adj_scale :: "rat option"
  adj_rotation :: "rat option"
  adj_x :: "int option"
  adj_y :: "int option"

definition no_adjustments :: adjustments where
  "no_adjustments = \<lparr>adj_scale = None, adj_rotation = None, adj_x = None, adj_y = None\<rparr>"

text \<open>
  What the code calls but does not define: the file system, OpenCV, SciPy and MediaPipe.
  They are parameters of the model; a library call that raises returns \<open>None\<close>.
  \<^item> \<open>path_exists\<close>: \<^verbatim>\<open>os.path.exists\<close>;
  \<^item> \<open>cv_imread\<close>: \<^verbatim>\<open>cv2.imread(path, cv2.IMREAD_UNCHANGED)\<close>, \<open>None\<close> when it cannot decode;
  \<^item> \<open>cv_GaussianBlur\<close>: \<^verbatim>\<open>cv2.GaussianBlur(alpha, (3, 3), 0)\<close> on one channel;
  \<^item> \<open>cv_resize\<close>: \<^verbatim>\<open>cv2.resize(img, (new_width, new_height), INTER_LANCZOS4)\<close>;
  \<^item> \<open>abs_cos\<close>, \<open>abs_sin\<close>: the absolute values of the entries [0,0] and [0,1] of
    \<^verbatim>\<open>cv2.getRotationMatrix2D(center, angle, 1.0)\<close>, as functions of the angle in degrees;
  \<^item> \<open>cv_warpAffine\<close>: the rotation about the centre by the angle onto a canvas of the given
    (width, height), lines 195 and 204 to 214;
  \<^item> \<open>gaussian_filter\<close>: \<^verbatim>\<open>scipy.ndimage.gaussian_filter(alpha, sigma=1)\<close>;
  \<^item> \<open>cv_bgr2gray\<close>: \<^verbatim>\<open>cv2.cvtColor(_, cv2.COLOR_BGR2GRAY)\<close> on one pixel;
  \<^item> \<open>face_mesh_process\<close>: \<^verbatim>\<open>face_mesh.process\<close> followed by the choice of the first face;
  \<^item> \<open>get_head_pose\<close>: the method of FaceDetector, floating-point geometry around
    \<^verbatim>\<open>cv2.solvePnP\<close>, whose result the claims only pass on.
\<close>

record world =
  path_exists :: "string \<Rightarrow> bool"
  cv_imread :: "string \<Rightarrow> decoded option"
  cv_GaussianBlur :: "nat list list \<Rightarrow> nat list list"
  cv_resize :: "image \<Rightarrow> nat \<times> nat \<Rightarrow> image option"
  abs_cos :: "rat \<Rightarrow> rat"
  abs_sin :: "rat \<Rightarrow> rat"
  cv_warpAffine :: "image \<Rightarrow> rat \<Rightarrow> int \<times> int \<Rightarrow> image option"
  gaussian_filter :: "rat list list \<Rightarrow> rat list list"
  cv_bgr2gray :: "pixel \<Rightarrow> nat"
  face_mesh_process :: "image \<Rightarrow> landmark_set option"
  get_head_pose :: "landmark_set \<Rightarrow> image_shape \<Rightarrow> head_pose"

text \<open>
  \<^verbatim>\<open>detect_face\<close>: \<^verbatim>\<open>cv2.cvtColor(image, cv2.COLOR_BGR2RGB)\<close> accepts three or four
  channels and raises otherwise; the handler returns None.
\<close>

definition detect_face :: "world \<Rightarrow> image \<Rightarrow> landmark_set option" where
  "detect_face env img =
     (if channels img = 3 \<or> channels img = 4
      then face_mesh_process env (map (map (\<lambda>p. rev (take 3 p))) img)
      else None)"

subsection \<open>HairOverlay: state and asset cache (hair\_overlay.py)\<close>

text \<open>
  The calls whose number or order the properties below speak about are recorded in a trace:
  \<open>Preprocess k\<close> for the call of \<^verbatim>\<open>preprocess_haircut\<close> made while loading cache key
  \<open>k\<close>, \<open>DetectFace a\<close> for the call of \<^verbatim>\<open>face_detector.detect_face\<close> on the array at
  address \<open>a\<close>. The trace has no influence on any result.
\<close>

datatype event = Preprocess string | DetectFace nat

record overlay_state =
  arrays :: heap
  haircut_cache :: "(string \<times> nat) list"
  session_settings :: "(string \<times> adjustments option) list"
  trace :: "event list"

text \<open>\<^verbatim>\<open>HairOverlay.__init__\<close>: both dictionaries empty.\<close>

definition init_state :: overlay_state where
  "init_state = \<lparr>arrays = [], haircut_cache = [], session_settings = [], trace = []\<rparr>"

text \<open>\<^verbatim>\<open>os.path.basename\<close>: what follows the last slash.\<close>

definition basename :: "string \<Rightarrow> string" where
  "basename p = rev (takeWhile (\<lambda>c. c \<noteq> CHR ''/'') (rev p))"

definition cache_key :: "string \<Rightarrow> string \<Rightarrow> string" where
  "cache_key gender haircut_path = gender @ ''_'' @ basename haircut_path"

text \<open>Lines 55 to 62: two-dimensional input to BGRA, three channels get an opaque alpha.\<close>

definition ensure_rgba :: "decoded \<Rightarrow> image" where
  "ensure_rgba d =
     (case d of
        Gray2D g \<Rightarrow> map (map (\<lambda>v. [v, v, v, 255])) g
      | Array3D a \<Rightarrow> if channels a = 3 then map (map (\<lambda>p. p @ [255])) a else a)"

definition preprocess_haircut :: "world \<Rightarrow> image \<Rightarrow> image" where
  "preprocess_haircut env haircut =
     (if channels haircut = 4
      then let alpha = map (map (\<lambda>p. p ! 3)) haircut;
               alpha = cv_GaussianBlur env alpha
           in map2 (map2 (\<lambda>p a. p[3 := a])) haircut alpha
      else haircut)"

text \<open>
  \<^verbatim>\<open>load_haircut\<close> returns the address of the bitmap, or None. The array that
  \<^verbatim>\<open>cv2.imread\<close> creates and \<^verbatim>\<open>preprocess_haircut\<close> changes in place is not reachable
  from anywhere else before it is returned; it gets its address with its final content.
  A value stored in the cache is always an array, so \<^verbatim>\<open>cached is not None\<close> holds.
\<close>

definition load_haircut ::
  "world \<Rightarrow> string \<Rightarrow> string \<Rightarrow> overlay_state \<Rightarrow> nat option \<times> overlay_state" where
  "load_haircut env haircut_path gender s =
     (if \<not> path_exists env haircut_path then (None, s)
      else
        let key = cache_key gender haircut_path in
        case map_of (haircut_cache s) key of
          Some cached \<Rightarrow>
            (let (copy, hp) = alloc (arrays s ! cached) (arrays s)
             in (Some copy, s\<lparr>arrays := hp\<rparr>))
        | None \<Rightarrow>
            (case cv_imread env haircut_path of
               None \<Rightarrow> (None, s)
             | Some d \<Rightarrow>
                 (let haircut = preprocess_haircut env (ensure_rgba d);
                      (a, hp1) = alloc haircut (arrays s);
                      (c, hp2) = alloc (hp1 ! a) hp1
                  in (Some a, s\<lparr>arrays := hp2,
                                 haircut_cache := (key, c) # haircut_cache s,
                                 trace := trace s @ [Preprocess key]\<rparr>))))"

text \<open>A sequence of loads, each given as (path, gender); the results are dropped.\<close>

fun load_all :: "world \<Rightarrow> (string \<times> string) list \<Rightarrow> overlay_state \<Rightarrow> overlay_state" where
  "load_all env [] s = s"
| "load_all env ((haircut_path, gender) # rest) s =
     load_all env rest (snd (load_haircut env haircut_path gender s))"

subsection \<open>HairOverlay: transform\<close>

text \<open>Lines 176 to 184.\<close>

definition rotation_angle :: "head_pose option \<Rightarrow> adjustments \<Rightarrow> rat" where
  "rotation_angle head_pose adjustments =
     (let rotation_angle0 =
            (case head_pose of
               None \<Rightarrow> 0
             | Some hpose \<Rightarrow>
                 if pose_success hpose
                 then let yaw = (case pose_euler_angles hpose of
                                   None \<Rightarrow> 0 | Some e \<Rightarrow> euler_y e)
                      in np_clip yaw (- 30) 30
                 else 0)
      in rotation_angle0 + (case adj_rotation adjustments of None \<Rightarrow> 0 | Some r \<Rightarrow> r))"

text \<open>Lines 163 to 174 and 187 to 188: (new\_width, new\_height).\<close>

definition new_size :: "image \<Rightarrow> region \<Rightarrow> adjustments \<Rightarrow> nat \<times> nat" where
  "new_size haircut hair_region adjustments =
     (let h = img_height haircut;
          w = img_width haircut;
          base_scale_x = (if w > 0 then of_int (reg_width hair_region) / of_nat w else 1);
          base_scale_y = (if h > 0 then of_int (reg_height hair_region) / of_nat h else 1);
          base_scale = max base_scale_x base_scale_y;
          user_scale = (case adj_scale adjustments of None \<Rightarrow> 1 | Some v \<Rightarrow> v);
          scale = base_scale * user_scale;
          new_width = max 10 (py_int (of_nat w * scale));
          new_height = max 10 (py_int (of_nat h * scale))
      in (nat new_width, nat new_height))"

text \<open>Lines 198 to 201: the canvas (new\_w, new\_h) of the rotated bitmap.\<close>

definition rotated_canvas :: "world \<Rightarrow> nat \<times> nat \<Rightarrow> rat \<Rightarrow> int \<times> int" where
  "rotated_canvas env sz angle =
     (let (new_width, new_height) = sz;
          cos = abs_cos env angle;
          sin = abs_sin env angle;
          new_w = py_int (of_nat new_height * sin + of_nat new_width * cos);
          new_h = py_int (of_nat new_height * cos + of_nat new_width * sin)
      in (new_w, new_h))"

definition transform_haircut ::
  "world \<Rightarrow> image \<Rightarrow> head_pose option \<Rightarrow> region \<Rightarrow> adjustments option \<Rightarrow> image" where
  "transform_haircut env haircut head_pose hair_region adjustments =
     (let adjustments = (case adjustments of None \<Rightarrow> no_adjustments | Some a \<Rightarrow> a);
          angle = rotation_angle head_pose adjustments;
          sz = new_size haircut hair_region adjustments
      in case cv_resize env haircut sz of
           None \<Rightarrow> haircut
         | Some resized \<Rightarrow>
             if \<bar>angle\<bar> > 1
             then (case cv_warpAffine env resized angle (rotated_canvas env sz angle) of
                     None \<Rightarrow> haircut
                   | Some rotated \<Rightarrow> rotated)
             else resized)"

subsection \<open>HairOverlay: compositing\<close>

text \<open>
  \<^verbatim>\<open>color_match_hair(frame, original_roi, blended_roi, y1, y2, x1, x2)\<close>; \<open>frame\<close> is
  the address of the array that is written to and returned.
\<close>

definition color_match_hair ::
  "world \<Rightarrow> nat \<Rightarrow> rat list list list \<Rightarrow> image \<Rightarrow> int \<Rightarrow> int \<Rightarrow> int \<Rightarrow> int \<Rightarrow> heap
     \<Rightarrow> nat \<times> heap" where
  "color_match_hair env frame original_roi blended_roi y1 y2 x1 x2 hp =
     (if mean3 original_roi > 0
      then
        let original_lum =
              mean2 (map (map (\<lambda>p. cv_bgr2gray env (map to_uint8 p))) original_roi);
            blended_lum = mean2 (map (map (cv_bgr2gray env)) blended_roi)
        in if blended_lum > 0
           then
             let ratio = original_lum / blended_lum;
                 adjusted =
                   map (map (map (\<lambda>b. to_uint8
                      (np_clip (of_nat b * ratio * (7 / 10) + of_nat b * (3 / 10)) 0 255))))
                     blended_roi
             in (frame, hp[frame := assign_slice (hp ! frame) y1 x1 adjusted])
           else (frame, hp)
      else (frame, hp))"

text \<open>Line 278: \<^verbatim>\<open>(rgb * alpha_3ch + roi * (1 - alpha_3ch)).astype(np.uint8)\<close>.\<close>

definition alpha_blend ::
  "rat list list list \<Rightarrow> rat list list \<Rightarrow> rat list list list \<Rightarrow> image" where
  "alpha_blend rgb alpha roi =
     map2 (\<lambda>(rgb_row, alpha_row) roi_row.
             map2 (\<lambda>(c, a) b. map2 (\<lambda>cv bv. to_uint8 (cv * a + bv * (1 - a))) c b)
                  (zip rgb_row alpha_row) roi_row)
          (zip rgb alpha) roi"

text \<open>
  \<^verbatim>\<open>overlay_haircut(frame, haircut, hair_region, adjustments)\<close>; \<open>frame\<close> is the address
  of the caller's array, the result is the address of the returned array. The module
  imports scipy without a guard (line 5), so \<^verbatim>\<open>SCIPY_AVAILABLE\<close> is true whenever the
  module has loaded. A frame whose channel count is not 3 makes the blend or the slice
  assignment raise (the shapes do not broadcast); the handler returns \<^verbatim>\<open>frame\<close>.
\<close>

definition overlay_haircut ::
  "world \<Rightarrow> nat \<Rightarrow> image \<Rightarrow> region \<Rightarrow> adjustments option \<Rightarrow> heap \<Rightarrow> nat \<times> heap" where
  "overlay_haircut env frame haircut hair_region adjustments hp =
     (let adjustments = (case adjustments of None \<Rightarrow> no_adjustments | Some a \<Rightarrow> a);
          (result, hp1) = alloc (hp ! frame) hp;
          base_x = reg_x hair_region;
          base_y = reg_y hair_region;
          x_offset = (case adj_x adjustments of None \<Rightarrow> 0 | Some v \<Rightarrow> v);
          y_offset = (case adj_y adjustments of None \<Rightarrow> 0 | Some v \<Rightarrow> v);
          x = base_x + x_offset;
          y = base_y + y_offset;
          h = int (img_height haircut);
          w = int (img_width haircut);
          frame_h = int (img_height (hp ! frame));
          frame_w = int (img_width (hp ! frame));
          x1 = max 0 x;
          y1 = max 0 y;
          x2 = min frame_w (x + w);
          y2 = min frame_h (y + h);
          hx1 = max 0 (- x);
          hy1 = max 0 (- y);
          hx2 = min w (frame_w - x);
          hy2 = min h (frame_h - y)
      in if hx2 > hx1 \<and> hy2 > hy1
         then
           let haircut_slice = slice2 haircut hy1 hy2 hx1 hx2
           in if channels haircut_slice = 4
              then
                if channels (hp ! frame) \<noteq> 3 then (frame, hp1)
                else
                  let rgb = map (map (\<lambda>p. map of_nat (take 3 p))) haircut_slice;
                      alpha = map (map (\<lambda>p. of_nat (p ! 3) / 255)) haircut_slice;
                      alpha = gaussian_filter env alpha;
                      roi = map (map (map of_nat)) (slice2 (hp1 ! result) y1 y2 x1 x2);
                      blended = alpha_blend rgb alpha roi;
                      hp2 = hp1[result := assign_slice (hp1 ! result) y1 x1 blended]
                  in if mean3 roi > 0
                     then color_match_hair env result roi blended y1 y2 x1 x2 hp2
                     else (result, hp2)
              else (result, hp1)
         else (result, hp1))"

subsection \<open>HairOverlay: the pipeline\<close>

text \<open>Lines 96 to 110: the declared category, the custom category, the basename in custom.\<close>

definition resolve_haircut_path :: "world \<Rightarrow> string \<Rightarrow> string \<Rightarrow> string option" where
  "resolve_haircut_path env haircut_name gender =
     (let haircut_path = ''app/static/haircuts/'' @ gender @ ''/'' @ haircut_name;
          haircut_path = (if \<not> path_exists env haircut_path
                          then ''app/static/haircuts/custom/'' @ haircut_name
                          else haircut_path)
      in if \<not> path_exists env haircut_path
         then let alt_path = ''app/static/haircuts/custom/'' @ basename haircut_name
              in if path_exists env alt_path then Some alt_path else None
         else Some haircut_path)"

text \<open>Lines 136 to 138; a session id that is None or empty is falsy.\<close>

definition session_adjustments :: "overlay_state \<Rightarrow> string option \<Rightarrow> adjustments" where
  "session_adjustments s session_id =
     (case session_id of
        None \<Rightarrow> no_adjustments
      | Some sid \<Rightarrow>
          if sid \<noteq> []
          then (case map_of (session_settings s) sid of
                  None \<Rightarrow> no_adjustments
                | Some entry \<Rightarrow> (case entry of None \<Rightarrow> no_adjustments | Some a \<Rightarrow> a))
          else no_adjustments)"

text \<open>
  \<^verbatim>\<open>apply_haircut(frame, haircut_name, gender, session_id)\<close> returns
  ((address of the returned frame, face\_detected), new state).
\<close>

definition apply_haircut ::
  "world \<Rightarrow> nat \<Rightarrow> string \<Rightarrow> string \<Rightarrow> string option \<Rightarrow> overlay_state
     \<Rightarrow> (nat \<times> bool) \<times> overlay_state" where
  "apply_haircut env frame haircut_name gender session_id s =
     (let face_detected = False in
      case resolve_haircut_path env haircut_name gender of
        None \<Rightarrow> ((frame, face_detected), s)
      | Some haircut_path \<Rightarrow>
          (case load_haircut env haircut_path gender s of
             (None, s1) \<Rightarrow> ((frame, face_detected), s1)
           | (Some haircut, s1) \<Rightarrow>
               (let s2 = s1\<lparr>trace := trace s1 @ [DetectFace frame]\<rparr>
                in case detect_face env (arrays s2 ! frame) of
                     None \<Rightarrow> ((frame, face_detected), s2)
                   | Some landmarks \<Rightarrow>
                       (let face_detected = True;
                            shape = (img_height (arrays s2 ! frame),
                                     img_width (arrays s2 ! frame));
                            hpose = get_head_pose env landmarks shape
                        in case get_hair_region landmarks shape of
                             None \<Rightarrow> ((frame, face_detected), s2)
                           | Some hair_region \<Rightarrow>
                               (let adjustments = session_adjustments s2 session_id;
                                    transformed_haircut =
                                      transform_haircut env (arrays s2 ! haircut) (Some hpose)
                                        hair_region (Some adjustments);
                                    (result, hp) =
                                      overlay_haircut env frame transformed_haircut
                                        hair_region (Some adjustments) (arrays s2)
                                in ((result, face_detected), s2\<lparr>arrays := hp\<rparr>))))))"

subsection \<open>Notions of the specification\<close>



text \<open>clamp(v, lo, hi), headPose.eulerAngles.y and adjustments.rotation.\<close>

definition clamp :: "rat \<Rightarrow> rat \<Rightarrow> rat \<Rightarrow> rat" where
  "clamp v lo hi = max lo (min v hi)"

definition pose_yaw :: "head_pose \<Rightarrow> rat" where
  "pose_yaw hpose = (case pose_euler_angles hpose of None \<Rightarrow> 0 | Some e \<Rightarrow> euler_y e)"

definition user_rotation :: "adjustments \<Rightarrow> rat" where
  "user_rotation adj = (case adj_rotation adj of None \<Rightarrow> 0 | Some r \<Rightarrow> r)"


text \<open>
  The adjustments in force (\<^verbatim>\<open>adjustments=None\<close> stands for the empty dictionary), the
  placement origin (hairRegion.x + adjustments.x, hairRegion.y + adjustments.y) of section
  4.5 and the width and height of the overlap of the placed bitmap with the frame.
\<close>

definition given_adjustments :: "adjustments option \<Rightarrow> adjustments" where
  "given_adjustments adjo = (case adjo of None \<Rightarrow> no_adjustments | Some a \<Rightarrow> a)"

definition placement_x :: "region \<Rightarrow> adjustments \<Rightarrow> int" where
  "placement_x hair_region adj =
     reg_x hair_region + (case adj_x adj of None \<Rightarrow> 0 | Some v \<Rightarrow> v)"

definition placement_y :: "region \<Rightarrow> adjustments \<Rightarrow> int" where
  "placement_y hair_region adj =
     reg_y hair_region + (case adj_y adj of None \<Rightarrow> 0 | Some v \<Rightarrow> v)"

definition overlap_width :: "image \<Rightarrow> image \<Rightarrow> region \<Rightarrow> adjustments \<Rightarrow> int" where
  "overlap_width frame bitmap hair_region adj =
     min (int (img_width frame)) (placement_x hair_region adj + int (img_width bitmap))
     - max 0 (placement_x hair_region adj)"

definition overlap_height :: "image \<Rightarrow> image \<Rightarrow> region \<Rightarrow> adjustments \<Rightarrow> int" where
  "overlap_height frame bitmap hair_region adj =
     min (int (img_height frame)) (placement_y hair_region adj + int (img_height bitmap))
     - max 0 (placement_y hair_region adj)"

text \<open>The number of calls of the detector recorded in the trace.\<close>

definition is_detect :: "event \<Rightarrow> bool" where
  "is_detect e = (case e of DetectFace _ \<Rightarrow> True | Preprocess _ \<Rightarrow> False)"

definition detector_calls :: "overlay_state \<Rightarrow> nat" where
  "detector_calls s = length (filter is_detect (trace s))"

text \<open>Every address in the cache is the address of an array.\<close>

definition wf_state :: "overlay_state \<Rightarrow> bool" where
  "wf_state s = list_all (\<lambda>(k, a). a < length (arrays s)) (haircut_cache s)"

text \<open>
  The invariant of the cache: its keys are distinct, \<^verbatim>\<open>preprocess_haircut\<close> has been called
  once for each key in it and for no other, and each entry holds a decoded file
  preprocessed once.
\<close>

definition cache_inv :: "world \<Rightarrow> overlay_state \<Rightarrow> bool" where
  "cache_inv env s =
     (wf_state s
      \<and> distinct (map fst (haircut_cache s))
      \<and> (\<forall>k. count_list (trace s) (Preprocess k)
               = (if k \<in> fst ` set (haircut_cache s) then 1 else 0))
      \<and> (\<forall>(k, c) \<in> set (haircut_cache s).
            \<exists>p d. cv_imread env p = Some d
                  \<and> arrays s ! c = preprocess_haircut env (ensure_rgba d)))"




subsection \<open>Concrete inputs\<close>

text \<open>
  Concrete inputs for the closed examples below. The world \<open>demo_world\<close> has one asset
  file; its resampler is nearest-neighbour, its blurs are the identity and its luma is
  the rounded weighted sum 0.114 B + 0.587 G + 0.299 R. The theorems hold for every world.
\<close>

definition centred_face :: landmark_set where
  "centred_face = replicate 478 \<lparr>lm_x = 1 / 2, lm_y = 1 / 2\<rparr>"

definition edge_face :: landmark_set where
  "edge_face = replicate 478 \<lparr>lm_x = 1, lm_y = 1 / 2\<rparr>"

definition resize_nearest :: "image \<Rightarrow> nat \<times> nat \<Rightarrow> image option" where
  "resize_nearest img sz =
     (let (new_width, new_height) = sz; h = img_height img; w = img_width img
      in if h = 0 \<or> w = 0 \<or> new_width = 0 \<or> new_height = 0 then None
         else Some (map (\<lambda>i. map (\<lambda>j. img ! (i * h div new_height) ! (j * w div new_width))
                                   [0..<new_width]) [0..<new_height]))"

definition luma :: "pixel \<Rightarrow> nat" where
  "luma p = (114 * (p ! 0) + 587 * (p ! 1) + 299 * (p ! 2) + 500) div 1000"

definition frontal_pose :: head_pose where
  "frontal_pose = \<lparr>pose_success = True,
      pose_euler_angles = Some \<lparr>euler_x = 0, euler_y = 0, euler_z = 0\<rparr>\<rparr>"

definition turned_pose :: head_pose where
  "turned_pose = \<lparr>pose_success = True,
      pose_euler_angles = Some \<lparr>euler_x = 0, euler_y = 45, euler_z = 0\<rparr>\<rparr>"

definition demo_asset :: image where
  "demo_asset = [[[10, 20, 30, 255], [40, 50, 60, 255]],
                 [[70, 80, 90, 255], [100, 110, 120, 255]]]"

definition demo_path :: string where
  "demo_path = ''app/static/haircuts/male/fade.png''"

definition demo_world :: world where
  "demo_world =
     \<lparr>path_exists = (\<lambda>p. p = demo_path),
      cv_imread = (\<lambda>p. if p = demo_path then Some (Array3D demo_asset) else None),
      cv_GaussianBlur = (\<lambda>a. a),
      cv_resize = resize_nearest,
      abs_cos = (\<lambda>a. 1),
      abs_sin = (\<lambda>a. 0),
      cv_warpAffine = (\<lambda>img a sz. resize_nearest img (nat (fst sz), nat (snd sz))),
      gaussian_filter = (\<lambda>a. a),
      cv_bgr2gray = luma,
      face_mesh_process = (\<lambda>img. Some centred_face),
      get_head_pose = (\<lambda>lms shape. frontal_pose)\<rparr>"

definition unit_adjustments :: adjustments where
  "unit_adjustments =
     \<lparr>adj_scale = Some 1, adj_rotation = Some 0, adj_x = Some 0, adj_y = Some 0\<rparr>"


definition wide_region :: region where
  "wide_region = \<lparr>reg_x = 0, reg_y = 0, reg_width = 20, reg_height = 30,
                   reg_center_x = 10, reg_center_y = 15\<rparr>"


definition demo_frame :: image where
  "demo_frame = [[[90, 90, 90], [120, 120, 120]], [[30, 60, 90], [200, 100, 50]]]"

definition demo_state :: overlay_state where
  "demo_state = init_state\<lparr>arrays := [demo_frame]\<rparr>"

definition blind_world :: world where
  "blind_world = demo_world\<lparr>face_mesh_process := (\<lambda>img. None)\<rparr>"

definition short_world :: world where
  "short_world = demo_world\<lparr>face_mesh_process := (\<lambda>img. Some [])\<rparr>"

definition far_region :: region where
  "far_region = \<lparr>reg_x = 100, reg_y = 0, reg_width = 20, reg_height = 30,
                  reg_center_x = 110, reg_center_y = 15\<rparr>"




definition loaded_once :: overlay_state where
  "loaded_once = snd (load_haircut demo_world demo_path ''male'' init_state)"

section \<open>Properties\<close>

subsection \<open>The hair region\<close>

lemma py_int_nonneg: "0 \<le> v \<Longrightarrow> 0 \<le> py_int v"
  by (simp add: py_int_def)

lemma py_int_scaled_le:
  assumes "0 \<le> v" "v \<le> 1"
  shows "py_int (v * of_nat n) \<le> int n"
proof -
  have "v * of_nat n \<le> of_nat n"
    using assms by (simp add: mult_left_le_one_le)
  then have "\<lfloor>v * of_nat n\<rfloor> \<le> \<lfloor>(of_nat n :: rat)\<rfloor>"
    by (rule floor_mono)
  moreover have "0 \<le> v * of_nat n"
    using assms by simp
  ultimately show ?thesis
    by (simp add: py_int_def)
qed

lemma valid_landmark_at:
  assumes "valid_landmarks lms" "landmark_at lms i = Some p"
  shows "0 \<le> lm_x p \<and> lm_x p \<le> 1 \<and> 0 \<le> lm_y p \<and> lm_y p \<le> 1"
proof -
  from assms(2) have "i < length lms" "p = lms ! i"
    by (auto simp: landmark_at_def split: if_splits)
  with assms(1) show ?thesis
    by (simp add: valid_landmarks_def list_all_length)
qed

lemma forehead_bounds:
  assumes "valid_landmarks lms" "get_forehead_region lms (h, w) = Some f"
  shows "0 \<le> reg_x f \<and> reg_x f \<le> int w \<and> 0 \<le> reg_y f \<and> reg_y f \<le> int h
         \<and> 10 \<le> reg_width f \<and> 10 \<le> reg_height f"
proof -
  from assms(2) obtain lt where lt: "landmark_at lms 234 = Some lt"
    unfolding get_forehead_region_def by (cases "landmark_at lms 234") (simp_all only: option.case prod.case Let_def option.distinct)
  from assms(2) lt obtain rt where rt: "landmark_at lms 454 = Some rt"
    unfolding get_forehead_region_def by (cases "landmark_at lms 454") (simp_all only: option.case prod.case Let_def option.distinct)
  from assms(2) lt rt obtain bc where bc: "landmark_at lms 8 = Some bc"
    unfolding get_forehead_region_def by (cases "landmark_at lms 8") (simp_all only: option.case prod.case Let_def option.distinct)
  from assms(2) lt rt bc obtain tf where tf: "landmark_at lms 10 = Some tf"
    unfolding get_forehead_region_def by (cases "landmark_at lms 10") (simp_all only: option.case prod.case Let_def option.distinct)
  define fh where "fh = py_int (\<bar>lm_y tf - lm_y bc\<bar> * of_nat h * (9 / 5))"
  define ty where "ty = py_int (lm_y tf * of_nat h)"
  from assms(2) have feq: "f = \<lparr>reg_x = py_int (lm_x lt * of_nat w), reg_y = max 0 (ty - fh),
      reg_width = max 10 (py_int (lm_x rt * of_nat w) - py_int (lm_x lt * of_nat w)),
      reg_height = max 10 (py_int (lm_y bc * of_nat h) - max 0 (ty - fh)),
      reg_center_x = py_int (lm_x lt * of_nat w)
         + max 10 (py_int (lm_x rt * of_nat w) - py_int (lm_x lt * of_nat w)) div 2,
      reg_center_y = max 0 (ty - fh)
         + max 10 (py_int (lm_y bc * of_nat h) - max 0 (ty - fh)) div 2\<rparr>"
    unfolding get_forehead_region_def fh_def ty_def
    by (simp only: lt rt bc tf option.case prod.case Let_def option.inject)
  have fx: "reg_x f = py_int (lm_x lt * of_nat w)" by (subst feq) simp
  have fy: "reg_y f = max 0 (ty - fh)" by (subst feq) simp
  have fw: "10 \<le> reg_width f" by (subst feq) simp
  have fhh: "10 \<le> reg_height f" by (subst feq) simp
  have blt: "0 \<le> lm_x lt" "lm_x lt \<le> 1"
    using valid_landmark_at [OF assms(1) lt] by simp_all
  have btf: "0 \<le> lm_y tf" "lm_y tf \<le> 1"
    using valid_landmark_at [OF assms(1) tf] by simp_all
  have "0 \<le> reg_x f"
    unfolding fx using blt by (intro py_int_nonneg) simp
  moreover have "reg_x f \<le> int w"
    unfolding fx using blt by (intro py_int_scaled_le)
  moreover have "0 \<le> reg_y f"
    unfolding fy by simp
  moreover have "reg_y f \<le> int h"
  proof -
    have "0 \<le> fh"
      unfolding fh_def by (intro py_int_nonneg) simp
    moreover have "ty \<le> int h"
      unfolding ty_def using btf by (intro py_int_scaled_le)
    ultimately show ?thesis unfolding fy by simp
  qed
  ultimately show ?thesis using fw fhh by simp
qed

text \<open>
  C1 (as amended). For every landmark set with coordinates in [0,1] and every frame size
  w x h, the region returned by \<^verbatim>\<open>get_hair_region\<close>, when it is not None, lies within the
  frame (0 \<le> x, 0 \<le> y, x + width \<le> w, y + height \<le> h) and has width and height at
  least 0; its width is at least 10 where the frame leaves 10 columns to the right of x
  (width \<ge> min(10, w - x)), and likewise its height (height \<ge> min(10, h - y)).
\<close>

theorem hair_region_within_frame:
  assumes "valid_landmarks lms" "get_hair_region lms (h, w) = Some r"
  shows "0 \<le> reg_x r \<and> 0 \<le> reg_y r
       \<and> reg_x r + reg_width r \<le> int w \<and> reg_y r + reg_height r \<le> int h
       \<and> 0 \<le> reg_width r \<and> 0 \<le> reg_height r
       \<and> min 10 (int w - reg_x r) \<le> reg_width r
       \<and> min 10 (int h - reg_y r) \<le> reg_height r"
proof -
  from assms(2) obtain f where f: "get_forehead_region lms (h, w) = Some f"
    unfolding get_hair_region_def
    by (cases "get_forehead_region lms (h, w)") (simp_all only: option.case option.distinct)
  define a where "a = py_int (of_int (reg_width f) * (2 / 5))"
  define b where "b = py_int (of_int (reg_height f) * (3 / 5))"
  define c where "c = py_int (of_int (reg_width f) * (4 / 5))"
  define d where "d = py_int (of_int (reg_height f) * (6 / 5))"
  define x1 where "x1 = max 0 (reg_x f - a)"
  define y1 where "y1 = max 0 (reg_y f - b)"
  define w1 where "w1 = min (int w - x1) (reg_width f + c)"
  define h1 where "h1 = min (int h - y1) (reg_height f + d)"
  from assms(2) have req: "r = \<lparr>reg_x = x1, reg_y = y1, reg_width = w1, reg_height = h1,
      reg_center_x = x1 + w1 div 2, reg_center_y = y1 + h1 div 2\<rparr>"
    unfolding get_hair_region_def a_def b_def c_def d_def x1_def y1_def w1_def h1_def
    by (simp only: f option.case prod.case Let_def option.inject)
  have rx: "reg_x r = x1" and ry: "reg_y r = y1"
    and rw: "reg_width r = w1" and rh: "reg_height r = h1"
    by (simp_all add: req)
  note fb = forehead_bounds [OF assms(1) f]
  have a0: "0 \<le> a" unfolding a_def using fb by (intro py_int_nonneg) simp
  have b0: "0 \<le> b" unfolding b_def using fb by (intro py_int_nonneg) simp
  have c0: "0 \<le> c" unfolding c_def using fb by (intro py_int_nonneg) simp
  have d0: "0 \<le> d" unfolding d_def using fb by (intro py_int_nonneg) simp
  have x1b: "0 \<le> x1" "x1 \<le> int w" unfolding x1_def using fb a0 by simp_all
  have y1b: "0 \<le> y1" "y1 \<le> int h" unfolding y1_def using fb b0 by simp_all
  have w1b: "x1 + w1 \<le> int w" "0 \<le> w1" "min 10 (int w - x1) \<le> w1"
    unfolding w1_def using fb c0 x1b by linarith+
  have h1b: "y1 + h1 \<le> int h" "0 \<le> h1" "min 10 (int h - y1) \<le> h1"
    unfolding h1_def using fb d0 y1b by linarith+
  show ?thesis
    unfolding rx ry rw rh using x1b y1b w1b h1b by simp
qed

theorem hair_region_within_frame_witness:
  "valid_landmarks centred_face
   \<and> get_hair_region centred_face (480, 640)
       = Some \<lparr>reg_x = 316, reg_y = 234, reg_width = 18, reg_height = 22,
               reg_center_x = 325, reg_center_y = 245\<rparr>
   \<and> (316::int) + 18 \<le> int 640 \<and> (234::int) + 22 \<le> int 480
   \<and> min 10 (int 640 - 316) \<le> (18::int) \<and> min 10 (int 480 - 234) \<le> (22::int)"
proof -
  have v: "valid_landmarks centred_face"
    by (simp add: centred_face_def valid_landmarks_def list_all_length)
  have g: "get_hair_region centred_face (480, 640)
       = Some \<lparr>reg_x = 316, reg_y = 234, reg_width = 18, reg_height = 22,
               reg_center_x = 325, reg_center_y = 245\<rparr>"
    by (simp add: centred_face_def get_hair_region_def get_forehead_region_def
          landmark_at_def py_int_def Let_def)
  from hair_region_within_frame [OF v g] v g show ?thesis by simp
qed

text \<open>
  C1 as stated fails: a valid landmark set whose temples lie on the right edge of a
  640 x 480 frame gives a hair region of width 4, less than 10.
\<close>

theorem hair_region_min_width_counterexample:
  "valid_landmarks edge_face
   \<and> get_hair_region edge_face (480, 640)
       = Some \<lparr>reg_x = 636, reg_y = 234, reg_width = 4, reg_height = 22,
               reg_center_x = 638, reg_center_y = 245\<rparr>
   \<and> \<not> (10::int) \<le> 4"
  by (simp add: edge_face_def valid_landmarks_def list_all_length get_hair_region_def
        get_forehead_region_def landmark_at_def py_int_def Let_def)

subsection \<open>The size of the transformed bitmap\<close>
















subsection \<open>The rotation angle\<close>

text \<open>
  C4. The rotation angle used by \<^verbatim>\<open>transform_haircut\<close> is
  clamp(yaw, -30, 30) + adjustments.rotation when the pose solve succeeded and
  0 + adjustments.rotation when it did not; once the resize has succeeded, the resized
  bitmap is returned as it is when the absolute value of the angle is at most 1, and
  otherwise the result is that of the rotation of the resized bitmap by this angle (the
  input bitmap, should the rotation raise).
\<close>

theorem rotation_rule:
  assumes "cv_resize env haircut (new_size haircut hr adj) = Some resized"
  shows "rotation_angle (Some hpose) adj
           = (if pose_success hpose then clamp (pose_yaw hpose) (- 30) 30 else 0)
             + user_rotation adj
       \<and> (\<bar>rotation_angle (Some hpose) adj\<bar> \<le> 1 \<longrightarrow>
            transform_haircut env haircut (Some hpose) hr (Some adj) = resized)
       \<and> (\<bar>rotation_angle (Some hpose) adj\<bar> > 1 \<longrightarrow>
            transform_haircut env haircut (Some hpose) hr (Some adj)
            = (case cv_warpAffine env resized (rotation_angle (Some hpose) adj)
                      (rotated_canvas env (new_size haircut hr adj)
                         (rotation_angle (Some hpose) adj)) of
                 None \<Rightarrow> haircut
               | Some rotated \<Rightarrow> rotated))"
proof -
  have "np_clip v (- 30) 30 = clamp v (- 30) 30" for v
    by (simp add: np_clip_def clamp_def min_def max_def)
  then have angle: "rotation_angle (Some hpose) adj
           = (if pose_success hpose then clamp (pose_yaw hpose) (- 30) 30 else 0)
             + user_rotation adj"
    by (simp add: rotation_angle_def pose_yaw_def user_rotation_def)
  have skip: "transform_haircut env haircut (Some hpose) hr (Some adj) = resized"
    if "\<bar>rotation_angle (Some hpose) adj\<bar> \<le> 1"
    using that assms unfolding transform_haircut_def
    by (simp only: option.case Let_def) simp
  have rot: "transform_haircut env haircut (Some hpose) hr (Some adj)
            = (case cv_warpAffine env resized (rotation_angle (Some hpose) adj)
                      (rotated_canvas env (new_size haircut hr adj)
                         (rotation_angle (Some hpose) adj)) of
                 None \<Rightarrow> haircut
               | Some rotated \<Rightarrow> rotated)"
    if "\<bar>rotation_angle (Some hpose) adj\<bar> > 1"
    using that assms unfolding transform_haircut_def
    by (simp only: option.case Let_def) simp
  show ?thesis using angle skip rot by blast
qed


theorem rotation_rule_witness:
  "cv_resize demo_world demo_asset (new_size demo_asset wide_region unit_adjustments)
     = Some (the (resize_nearest demo_asset (30, 30)))
   \<and> rotation_angle (Some turned_pose) unit_adjustments = 30
   \<and> rotation_angle (Some frontal_pose) unit_adjustments = 0
   \<and> transform_haircut demo_world demo_asset (Some frontal_pose) wide_region
         (Some unit_adjustments) = the (resize_nearest demo_asset (30, 30))
   \<and> transform_haircut demo_world demo_asset (Some turned_pose) wide_region
         (Some unit_adjustments)
       = (case cv_warpAffine demo_world (the (resize_nearest demo_asset (30, 30))) 30
                 (rotated_canvas demo_world (30, 30) 30) of
            None \<Rightarrow> demo_asset | Some rotated \<Rightarrow> rotated)"
proof -
  have ns: "new_size demo_asset wide_region unit_adjustments = (30, 30)"
    by (simp add: new_size_def demo_asset_def wide_region_def unit_adjustments_def
          img_width_def img_height_def py_int_def Let_def)
  have "resize_nearest demo_asset (30, 30) \<noteq> None"
    by (simp add: resize_nearest_def demo_asset_def img_width_def img_height_def)
  then have res: "cv_resize demo_world demo_asset
      (new_size demo_asset wide_region unit_adjustments)
     = Some (the (resize_nearest demo_asset (30, 30)))"
    unfolding ns by (simp add: demo_world_def)
  have f: "(if pose_success frontal_pose then clamp (pose_yaw frontal_pose) (- 30) 30 else 0)
             + user_rotation unit_adjustments = 0"
    by (simp add: frontal_pose_def pose_yaw_def clamp_def user_rotation_def unit_adjustments_def)
  have t: "(if pose_success turned_pose then clamp (pose_yaw turned_pose) (- 30) 30 else 0)
             + user_rotation unit_adjustments = 30"
    by (simp add: turned_pose_def pose_yaw_def clamp_def user_rotation_def unit_adjustments_def)
  from rotation_rule [OF res, of frontal_pose, unfolded f]
  have r0: "rotation_angle (Some frontal_pose) unit_adjustments = 0"
    and t0: "transform_haircut demo_world demo_asset (Some frontal_pose) wide_region
         (Some unit_adjustments) = the (resize_nearest demo_asset (30, 30))"
    by simp_all
  from rotation_rule [OF res, of turned_pose, unfolded t]
  have r1: "rotation_angle (Some turned_pose) unit_adjustments = 30"
    and t1: "transform_haircut demo_world demo_asset (Some turned_pose) wide_region
         (Some unit_adjustments)
       = (case cv_warpAffine demo_world (the (resize_nearest demo_asset (30, 30))) 30
                 (rotated_canvas demo_world (30, 30) 30) of
            None \<Rightarrow> demo_asset | Some rotated \<Rightarrow> rotated)"
    by (simp_all add: ns)
  from res r0 r1 t0 t1 show ?thesis by blast
qed

subsection \<open>Compositing without overlap\<close>

text \<open>
  The heap after \<^verbatim>\<open>overlay_haircut\<close> is the heap before it with one more array, the
  copy; the result is the copy or, after an exception, the frame itself.
\<close>

lemma overlay_cases:
  "(\<exists>v. overlay_haircut env frame haircut hr adjo hp = (length hp, hp @ [v]))
   \<or> overlay_haircut env frame haircut hr adjo hp = (frame, hp @ [hp ! frame])"
proof -
  have cm: "\<exists>v. color_match_hair env (length hp) oroi broi y1 y2 x1 x2 (hp @ [u])
               = (length hp, hp @ [v])" for oroi broi y1 y2 x1 x2 u
    unfolding color_match_hair_def
    by (simp only: Let_def) (auto simp only: list_update_length split: if_splits)
  show ?thesis
    unfolding overlay_haircut_def alloc_def
    apply (simp only: Let_def prod.case list_update_length nth_append_length)
    apply (simp only: split: if_split)
    using cm apply blast
    done
qed

text \<open>
  C5. For every frame, bitmap, hair region and adjustments, if the placement rectangle
  (origin hairRegion.x + adjustments.x, hairRegion.y + adjustments.y, with the bitmap's
  dimensions) has no overlap with the frame (overlap width or overlap height at most 0),
  the array returned by \<^verbatim>\<open>overlay_haircut\<close> has the pixels of the input frame.
\<close>

theorem composite_without_overlap:
  assumes "overlap_width (hp ! frame) haircut hr (given_adjustments adjo) \<le> 0
         \<or> overlap_height (hp ! frame) haircut hr (given_adjustments adjo) \<le> 0"
  shows "snd (overlay_haircut env frame haircut hr adjo hp)
           ! fst (overlay_haircut env frame haircut hr adjo hp) = hp ! frame"
proof -
  define x where "x = reg_x hr + (case adj_x (given_adjustments adjo) of None \<Rightarrow> 0 | Some v \<Rightarrow> v)"
  define y where "y = reg_y hr + (case adj_y (given_adjustments adjo) of None \<Rightarrow> 0 | Some v \<Rightarrow> v)"
  define w where "w = int (img_width haircut)"
  define h where "h = int (img_height haircut)"
  define fw where "fw = int (img_width (hp ! frame))"
  define fh where "fh = int (img_height (hp ! frame))"
  from assms have "min fw (x + w) - max 0 x \<le> 0 \<or> min fh (y + h) - max 0 y \<le> 0"
    unfolding overlap_width_def overlap_height_def placement_x_def placement_y_def
      x_def y_def w_def h_def fw_def fh_def .
  then have guard: "\<not> (min w (fw - x) > max 0 (- x) \<and> min h (fh - y) > max 0 (- y))"
    by linarith
  have "overlay_haircut env frame haircut hr adjo hp = (length hp, hp @ [hp ! frame])"
    unfolding overlay_haircut_def alloc_def
    using guard unfolding x_def y_def w_def h_def fw_def fh_def given_adjustments_def
    by (simp only: Let_def prod.case if_False)
  then show ?thesis by simp
qed

theorem composite_without_overlap_witness:
  "overlap_width ([demo_frame] ! 0) demo_asset far_region (given_adjustments None) \<le> 0
   \<and> snd (overlay_haircut demo_world 0 demo_asset far_region None [demo_frame])
       ! fst (overlay_haircut demo_world 0 demo_asset far_region None [demo_frame])
     = demo_frame"
proof -
  have h: "overlap_width ([demo_frame] ! 0) demo_asset far_region (given_adjustments None) \<le> 0"
    by (simp add: overlap_width_def placement_x_def given_adjustments_def no_adjustments_def
          far_region_def demo_frame_def demo_asset_def img_width_def)
  from composite_without_overlap [of "[demo_frame]" 0 demo_asset far_region None demo_world,
         OF disjI1 [OF h]] h
  show ?thesis by simp
qed

lemma overlay_frame_kept:
  assumes "frame < length hp"
  shows "snd (overlay_haircut env frame haircut hr adjo hp) ! frame = hp ! frame"
  using overlay_cases [of env frame haircut hr adjo hp] assms
  by (auto simp: nth_append)

subsection \<open>The asset cache\<close>

text \<open>The four ways through \<^verbatim>\<open>load_haircut\<close>.\<close>

lemma load_missing:
  "\<not> path_exists env p \<Longrightarrow> load_haircut env p g s = (None, s)"
  by (simp add: load_haircut_def)

lemma load_hit:
  assumes "path_exists env p" "map_of (haircut_cache s) (cache_key g p) = Some c"
  shows "load_haircut env p g s
         = (Some (length (arrays s)), s\<lparr>arrays := arrays s @ [arrays s ! c]\<rparr>)"
  using assms by (simp add: load_haircut_def alloc_def Let_def)

lemma load_undecodable:
  assumes "path_exists env p" "map_of (haircut_cache s) (cache_key g p) = None"
    "cv_imread env p = None"
  shows "load_haircut env p g s = (None, s)"
  using assms by (simp add: load_haircut_def)

lemma load_miss:
  assumes "path_exists env p" "map_of (haircut_cache s) (cache_key g p) = None"
    "cv_imread env p = Some d"
  shows "load_haircut env p g s
         = (Some (length (arrays s)),
            s\<lparr>arrays := arrays s @ [preprocess_haircut env (ensure_rgba d),
                                     preprocess_haircut env (ensure_rgba d)],
              haircut_cache := (cache_key g p, Suc (length (arrays s))) # haircut_cache s,
              trace := trace s @ [Preprocess (cache_key g p)]\<rparr>)"
  using assms by (simp add: load_haircut_def alloc_def Let_def)

lemma load_cases:
  obtains
    (missing) "\<not> path_exists env p" "load_haircut env p g s = (None, s)"
  | (hit) c where "path_exists env p" "map_of (haircut_cache s) (cache_key g p) = Some c"
      "load_haircut env p g s
         = (Some (length (arrays s)), s\<lparr>arrays := arrays s @ [arrays s ! c]\<rparr>)"
  | (undecodable) "path_exists env p" "map_of (haircut_cache s) (cache_key g p) = None"
      "cv_imread env p = None" "load_haircut env p g s = (None, s)"
  | (miss) d where "path_exists env p" "map_of (haircut_cache s) (cache_key g p) = None"
      "cv_imread env p = Some d"
      "load_haircut env p g s
         = (Some (length (arrays s)),
            s\<lparr>arrays := arrays s @ [preprocess_haircut env (ensure_rgba d),
                                     preprocess_haircut env (ensure_rgba d)],
              haircut_cache := (cache_key g p, Suc (length (arrays s))) # haircut_cache s,
              trace := trace s @ [Preprocess (cache_key g p)]\<rparr>)"
proof (cases "path_exists env p")
  case False
  then show ?thesis using load_missing missing by blast
next
  case ex: True
  show ?thesis
  proof (cases "map_of (haircut_cache s) (cache_key g p)")
    case (Some c)
    then show ?thesis using load_hit [OF ex] hit ex by blast
  next
    case None
    show ?thesis
    proof (cases "cv_imread env p")
      case n: None
      then show ?thesis using load_undecodable [OF ex None] undecodable ex None by blast
    next
      case (Some d)
      then show ?thesis using load_miss [OF ex None] miss ex None by blast
    qed
  qed
qed

lemma load_extends: "\<exists>ext. arrays (snd (load_haircut env p g s)) = arrays s @ ext"
  by (cases rule: load_cases [of env p g s]) auto

lemma load_detector_calls:
  "detector_calls (snd (load_haircut env p g s)) = detector_calls s"
  by (cases rule: load_cases [of env p g s]) (auto simp: detector_calls_def is_detect_def)

lemma wf_cached:
  assumes "wf_state s" "map_of (haircut_cache s) k = Some c"
  shows "c < length (arrays s)"
proof -
  from assms(2) have "(k, c) \<in> set (haircut_cache s)" by (rule map_of_SomeD)
  with assms(1) show ?thesis by (auto simp: wf_state_def list_all_iff)
qed

lemma wf_load: 
  assumes "wf_state s"
  shows "wf_state (snd (load_haircut env p g s))"
proof (cases rule: load_cases [of env p g s])
  case missing
  then show ?thesis using assms by simp
next
  case (hit c)
  then show ?thesis using assms by (auto simp: wf_state_def list_all_iff)
next
  case undecodable
  then show ?thesis using assms by simp
next
  case (miss d)
  then show ?thesis using assms by (auto simp: wf_state_def list_all_iff)
qed

lemma wf_init: "wf_state init_state"
  by (simp add: wf_state_def init_state_def)

lemma demo_key: "cache_key ''male'' demo_path = ''male_fade.png''"
  by (simp add: cache_key_def basename_def demo_path_def)

lemma demo_worlds_fs:
  "path_exists demo_world demo_path" "cv_imread demo_world demo_path = Some (Array3D demo_asset)"
  "path_exists blind_world demo_path" "cv_imread blind_world demo_path = Some (Array3D demo_asset)"
  "path_exists short_world demo_path" "cv_imread short_world demo_path = Some (Array3D demo_asset)"
  by (simp_all add: demo_world_def blind_world_def short_world_def)

lemma init_load:
  "load_haircut demo_world demo_path ''male'' init_state
     = (Some 0, init_state\<lparr>arrays := [preprocess_haircut demo_world (ensure_rgba (Array3D demo_asset)),
                 preprocess_haircut demo_world (ensure_rgba (Array3D demo_asset))],
              haircut_cache := [(''male_fade.png'', 1)],
              trace := [Preprocess ''male_fade.png'']\<rparr>)"
proof -
  have "map_of (haircut_cache init_state) (cache_key ''male'' demo_path) = None"
    by (simp add: init_state_def)
  from load_miss [OF demo_worlds_fs(1) this demo_worlds_fs(2)] show ?thesis
    by (simp add: demo_key init_state_def)
qed

lemma loaded_once_eq:
  "loaded_once = init_state\<lparr>arrays := [preprocess_haircut demo_world (ensure_rgba (Array3D demo_asset)),
                 preprocess_haircut demo_world (ensure_rgba (Array3D demo_asset))],
              haircut_cache := [(''male_fade.png'', 1)],
              trace := [Preprocess ''male_fade.png'']\<rparr>"
  unfolding loaded_once_def init_load by simp

text \<open>
  C6. For every category and asset path, in a state whose cache holds addresses of
  arrays, if a call of \<^verbatim>\<open>load_haircut\<close> returns a bitmap, then a second call with the
  same arguments returns a bitmap with the same pixels (whether the first call was a
  cache miss or a cache hit), the cache holds an entry with these pixels, and the two
  returned arrays and the cached one are three different arrays: writing to either
  returned array changes neither the other one nor the cached entry.
\<close>

theorem load_twice:
  assumes "wf_state s0" "load_haircut env p g s0 = (Some a1, s1)"
    "load_haircut env p g s1 = (r2, s2)"
  shows "\<exists>a2 c. r2 = Some a2 \<and> map_of (haircut_cache s2) (cache_key g p) = Some c
     \<and> arrays s2 ! a2 = arrays s1 ! a1 \<and> arrays s2 ! a1 = arrays s1 ! a1
     \<and> arrays s2 ! c = arrays s1 ! a1
     \<and> a1 \<noteq> a2 \<and> a1 \<noteq> c \<and> a2 \<noteq> c
     \<and> a1 < length (arrays s2) \<and> a2 < length (arrays s2) \<and> c < length (arrays s2)
     \<and> (\<forall>img. (arrays s2)[a1 := img] ! a2 = arrays s2 ! a2
             \<and> (arrays s2)[a1 := img] ! c = arrays s2 ! c
             \<and> (arrays s2)[a2 := img] ! a1 = arrays s2 ! a1
             \<and> (arrays s2)[a2 := img] ! c = arrays s2 ! c)"
proof -
  let ?n = "length (arrays s0)"
  let ?key = "cache_key g p"
  have main: "\<exists>a2 c. r2 = Some a2 \<and> map_of (haircut_cache s2) ?key = Some c
     \<and> arrays s2 ! a2 = arrays s1 ! a1 \<and> arrays s2 ! a1 = arrays s1 ! a1
     \<and> arrays s2 ! c = arrays s1 ! a1
     \<and> a1 \<noteq> a2 \<and> a1 \<noteq> c \<and> a2 \<noteq> c
     \<and> a1 < length (arrays s2) \<and> a2 < length (arrays s2) \<and> c < length (arrays s2)"
  proof (cases rule: load_cases [of env p g s0])
    case missing
    with assms(2) show ?thesis by simp
  next
    case undecodable
    with assms(2) show ?thesis by simp
  next
    case (hit c)
    from hit(3) assms(2) have a1: "a1 = ?n"
      and s1: "s1 = s0\<lparr>arrays := arrays s0 @ [arrays s0 ! c]\<rparr>" by simp_all
    have c: "c < ?n" by (rule wf_cached [OF assms(1) hit(2)])
    have k1: "map_of (haircut_cache s1) ?key = Some c" unfolding s1 using hit(2) by simp
    from load_hit [OF hit(1) k1] assms(3)
    have r2: "r2 = Some (length (arrays s1))"
      and s2: "s2 = s1\<lparr>arrays := arrays s1 @ [arrays s1 ! c]\<rparr>" by simp_all
    have l1: "length (arrays s1) = Suc ?n" unfolding s1 by simp
    have ar2: "arrays s2 = arrays s0 @ [arrays s0 ! c, arrays s0 ! c]"
      unfolding s2 unfolding s1 using c by (simp add: nth_append)
    have ar1: "arrays s1 ! ?n = arrays s0 ! c" unfolding s1 by simp
    have k2: "map_of (haircut_cache s2) ?key = Some c" unfolding s2 using k1 by simp
    show ?thesis
      apply (rule exI [of _ "Suc ?n"], rule exI [of _ c])
      unfolding a1 ar1 ar2 using r2 l1 k2 c by (simp add: nth_append)
  next
    case (miss d)
    let ?v = "preprocess_haircut env (ensure_rgba d)"
    from miss(4) assms(2) have a1: "a1 = ?n"
      and s1: "s1 = s0\<lparr>arrays := arrays s0 @ [?v, ?v],
              haircut_cache := (?key, Suc ?n) # haircut_cache s0,
              trace := trace s0 @ [Preprocess ?key]\<rparr>" by simp_all
    have k1: "map_of (haircut_cache s1) ?key = Some (Suc ?n)" unfolding s1 by simp
    from load_hit [OF miss(1) k1] assms(3)
    have r2: "r2 = Some (length (arrays s1))"
      and s2: "s2 = s1\<lparr>arrays := arrays s1 @ [arrays s1 ! Suc ?n]\<rparr>" by simp_all
    have l1: "length (arrays s1) = Suc (Suc ?n)" unfolding s1 by simp
    have ar2: "arrays s2 = arrays s0 @ [?v, ?v, ?v]"
      unfolding s2 unfolding s1 by (simp add: nth_append)
    have ar1: "arrays s1 ! ?n = ?v" unfolding s1 by simp
    have k2: "map_of (haircut_cache s2) ?key = Some (Suc ?n)" unfolding s2 using k1 by simp
    show ?thesis
      apply (rule exI [of _ "Suc (Suc ?n)"], rule exI [of _ "Suc ?n"])
      unfolding a1 ar1 ar2 using r2 l1 k2 by (simp add: nth_append)
  qed
  then obtain a2 c where f: "r2 = Some a2" "map_of (haircut_cache s2) ?key = Some c"
     "arrays s2 ! a2 = arrays s1 ! a1" "arrays s2 ! a1 = arrays s1 ! a1"
     "arrays s2 ! c = arrays s1 ! a1"
     "a1 \<noteq> a2" "a1 \<noteq> c" "a2 \<noteq> c"
     "a1 < length (arrays s2)" "a2 < length (arrays s2)" "c < length (arrays s2)"
    by blast
  show ?thesis
    apply (rule exI [of _ a2], rule exI [of _ c])
    using f by simp
qed

theorem load_twice_witness:
  "wf_state init_state
   \<and> load_haircut demo_world demo_path ''male'' init_state = (Some 0, loaded_once)
   \<and> (\<exists>a2 c. fst (load_haircut demo_world demo_path ''male'' loaded_once) = Some a2
        \<and> arrays (snd (load_haircut demo_world demo_path ''male'' loaded_once)) ! a2
            = arrays loaded_once ! 0
        \<and> arrays (snd (load_haircut demo_world demo_path ''male'' loaded_once)) ! c
            = arrays loaded_once ! 0
        \<and> 0 \<noteq> a2 \<and> 0 \<noteq> c \<and> a2 \<noteq> c)"
proof -
  have l1: "load_haircut demo_world demo_path ''male'' init_state = (Some 0, loaded_once)"
    unfolding loaded_once_eq by (rule init_load)
  have l2: "load_haircut demo_world demo_path ''male'' loaded_once
     = (fst (load_haircut demo_world demo_path ''male'' loaded_once),
        snd (load_haircut demo_world demo_path ''male'' loaded_once))" by simp
  from load_twice [OF wf_init l1 l2] wf_init l1 show ?thesis by blast
qed

lemma cache_inv_init: "cache_inv env init_state"
  by (simp add: cache_inv_def init_state_def wf_state_def)

lemma cache_inv_load:
  assumes "cache_inv env s"
  shows "cache_inv env (snd (load_haircut env p g s))"
proof (cases rule: load_cases [of env p g s])
  case missing
  then show ?thesis using assms by simp
next
  case undecodable
  then show ?thesis using assms by simp
next
  case (hit c)
  from assms have wf: "wf_state s" by (simp add: cache_inv_def)
  have valid: "a < length (arrays s)" if "(k, a) \<in> set (haircut_cache s)" for k a
    using wf that by (auto simp: wf_state_def list_all_iff)
  have "wf_state (snd (load_haircut env p g s))" by (rule wf_load [OF wf])
  moreover have "\<forall>(k, a) \<in> set (haircut_cache s).
            \<exists>q d. cv_imread env q = Some d
                  \<and> (arrays s @ [arrays s ! c]) ! a = preprocess_haircut env (ensure_rgba d)"
    using assms valid by (fastforce simp: cache_inv_def nth_append)
  ultimately show ?thesis
    using assms unfolding hit(3) by (simp add: cache_inv_def)
next
  case (miss d)
  let ?key = "cache_key g p"
  let ?v = "preprocess_haircut env (ensure_rgba d)"
  from assms have wf: "wf_state s" by (simp add: cache_inv_def)
  have valid: "a < length (arrays s)" if "(k, a) \<in> set (haircut_cache s)" for k a
    using wf that by (auto simp: wf_state_def list_all_iff)
  from miss(2) have fresh: "?key \<notin> fst ` set (haircut_cache s)"
    by (simp add: map_of_eq_None_iff)
  have "wf_state (snd (load_haircut env p g s))" by (rule wf_load [OF wf])
  moreover have "distinct (map fst ((?key, Suc (length (arrays s))) # haircut_cache s))"
    using assms fresh by (simp add: cache_inv_def)
  moreover have "count_list (trace s @ [Preprocess ?key]) (Preprocess k)
               = (if k \<in> fst ` set ((?key, Suc (length (arrays s))) # haircut_cache s)
                  then 1 else 0)" for k
    using assms fresh by (auto simp: cache_inv_def)
  moreover have "\<forall>(k, a) \<in> set ((?key, Suc (length (arrays s))) # haircut_cache s).
            \<exists>q d'. cv_imread env q = Some d'
                  \<and> (arrays s @ [?v, ?v]) ! a = preprocess_haircut env (ensure_rgba d')"
  proof -
    have "\<exists>q d'. cv_imread env q = Some d'
                  \<and> (arrays s @ [?v, ?v]) ! a = preprocess_haircut env (ensure_rgba d')"
      if "(k, a) \<in> set (haircut_cache s)" for k a
    proof -
      from assms that obtain q d' where "cv_imread env q = Some d'"
        "arrays s ! a = preprocess_haircut env (ensure_rgba d')"
        by (fastforce simp: cache_inv_def)
      with valid [OF that] show ?thesis by (auto simp: nth_append)
    qed
    moreover have "\<exists>q d'. cv_imread env q = Some d'
          \<and> (arrays s @ [?v, ?v]) ! Suc (length (arrays s))
              = preprocess_haircut env (ensure_rgba d')"
      using miss(3) by (auto simp: nth_append)
    ultimately show ?thesis by auto
  qed
  ultimately show ?thesis
    unfolding miss(4) by (simp add: cache_inv_def)
qed

lemma cache_inv_load_all:
  "cache_inv env s \<Longrightarrow> cache_inv env (load_all env ops s)"
proof (induction ops arbitrary: s)
  case Nil
  then show ?case by simp
next
  case (Cons op ops)
  obtain p g where op: "op = (p, g)" by (cases op)
  show ?case
    unfolding op using Cons.IH [OF cache_inv_load [OF Cons.prems]] by simp
qed

text \<open>
  C7. A cache hit returns a copy of the stored array and changes neither the cache nor
  the trace: no preprocessing takes place. A cache miss on a decodable file calls
  \<^verbatim>\<open>preprocess_haircut\<close> once, on the normalised decoded image, and inserts the result.
  After every sequence of loads from the initial state, the number of
  \<^verbatim>\<open>preprocess_haircut\<close> calls made for a key is 1 if the key is in the cache and 0
  otherwise, the keys of the cache are distinct, and every entry is a decoded file
  preprocessed once.
\<close>

theorem preprocessed_once:
  "(path_exists env p \<and> map_of (haircut_cache s) (cache_key g p) = Some c \<longrightarrow>
      load_haircut env p g s
        = (Some (length (arrays s)), s\<lparr>arrays := arrays s @ [arrays s ! c]\<rparr>))
   \<and> (path_exists env p \<and> map_of (haircut_cache s) (cache_key g p) = None
       \<and> cv_imread env p = Some d \<longrightarrow>
      load_haircut env p g s
        = (Some (length (arrays s)),
           s\<lparr>arrays := arrays s @ [preprocess_haircut env (ensure_rgba d),
                                    preprocess_haircut env (ensure_rgba d)],
             haircut_cache := (cache_key g p, Suc (length (arrays s))) # haircut_cache s,
             trace := trace s @ [Preprocess (cache_key g p)]\<rparr>))
   \<and> (\<forall>k. count_list (trace (load_all env ops init_state)) (Preprocess k)
            = (if k \<in> fst ` set (haircut_cache (load_all env ops init_state))
               then 1 else 0))
   \<and> distinct (map fst (haircut_cache (load_all env ops init_state)))
   \<and> (\<forall>(k, a) \<in> set (haircut_cache (load_all env ops init_state)).
         \<exists>q d'. cv_imread env q = Some d'
            \<and> arrays (load_all env ops init_state) ! a
                = preprocess_haircut env (ensure_rgba d'))"
proof -
  have "cache_inv env (load_all env ops init_state)"
    by (rule cache_inv_load_all [OF cache_inv_init])
  then show ?thesis
    using load_hit [of env p s g c] load_miss [of env p s g d]
    unfolding cache_inv_def by blast
qed

theorem preprocessed_once_witness:
  "path_exists demo_world demo_path
   \<and> map_of (haircut_cache init_state) (cache_key ''male'' demo_path) = None
   \<and> cv_imread demo_world demo_path = Some (Array3D demo_asset)
   \<and> trace (snd (load_haircut demo_world demo_path ''male'' init_state))
       = [Preprocess ''male_fade.png'']
   \<and> map_of (haircut_cache loaded_once) (cache_key ''male'' demo_path) = Some 1
   \<and> load_haircut demo_world demo_path ''male'' loaded_once
       = (Some 2, loaded_once\<lparr>arrays := arrays loaded_once @ [arrays loaded_once ! 1]\<rparr>)
   \<and> count_list (trace (load_all demo_world [(demo_path, ''male''), (demo_path, ''male'')]
                    init_state)) (Preprocess ''male_fade.png'') = 1"
proof -
  have m: "map_of (haircut_cache init_state) (cache_key ''male'' demo_path) = None"
    by (simp add: init_state_def)
  have h: "map_of (haircut_cache loaded_once) (cache_key ''male'' demo_path) = Some 1"
    by (simp add: loaded_once_eq demo_key)
  have len: "length (arrays loaded_once) = 2" by (simp add: loaded_once_eq)
  note t = preprocessed_once [of demo_world demo_path _ "''male''" _ "Array3D demo_asset"
             "[(demo_path, ''male''), (demo_path, ''male'')]"]
  from t [of init_state 0] demo_worlds_fs(1,2) m
  have e1: "trace (snd (load_haircut demo_world demo_path ''male'' init_state))
       = [Preprocess ''male_fade.png'']"
    by (simp add: demo_key init_state_def)
  from t [of loaded_once 1] demo_worlds_fs(1) h
  have e2: "load_haircut demo_world demo_path ''male'' loaded_once
       = (Some 2, loaded_once\<lparr>arrays := arrays loaded_once @ [arrays loaded_once ! 1]\<rparr>)"
    by (simp add: len)
  have la: "haircut_cache (load_all demo_world [(demo_path, ''male''), (demo_path, ''male'')]
                    init_state) = [(''male_fade.png'', 1)]"
    using e2 by (simp add: init_load loaded_once_eq)
  from t [of init_state 0]
  have "count_list (trace (load_all demo_world [(demo_path, ''male''), (demo_path, ''male'')]
                    init_state)) (Preprocess ''male_fade.png'')
        = (if ''male_fade.png'' \<in> fst ` set (haircut_cache (load_all demo_world
              [(demo_path, ''male''), (demo_path, ''male'')] init_state)) then 1 else 0)"
    by blast
  then have e3: "count_list (trace (load_all demo_world
       [(demo_path, ''male''), (demo_path, ''male'')] init_state)) (Preprocess ''male_fade.png'') = 1"
    unfolding la by simp
  from demo_worlds_fs(1,2) m e1 h e2 e3 show ?thesis by blast
qed

subsection \<open>The pipeline\<close>

text \<open>The five return statements of \<^verbatim>\<open>apply_haircut\<close>.\<close>

lemma apply_unresolved:
  assumes "resolve_haircut_path env name g = None"
  shows "apply_haircut env frame name g sid s = ((frame, False), s)"
  using assms by (simp add: apply_haircut_def)

lemma apply_not_loaded:
  assumes "resolve_haircut_path env name g = Some p" "load_haircut env p g s = (None, s1)"
  shows "apply_haircut env frame name g sid s = ((frame, False), s1)"
  using assms by (simp add: apply_haircut_def)

lemma apply_no_face:
  assumes "resolve_haircut_path env name g = Some p" "load_haircut env p g s = (Some hc, s1)"
    "detect_face env (arrays s1 ! frame) = None"
  shows "apply_haircut env frame name g sid s
         = ((frame, False), s1\<lparr>trace := trace s1 @ [DetectFace frame]\<rparr>)"
  using assms by (simp add: apply_haircut_def)

lemma apply_no_region:
  assumes "resolve_haircut_path env name g = Some p" "load_haircut env p g s = (Some hc, s1)"
    "detect_face env (arrays s1 ! frame) = Some lms"
    "get_hair_region lms (img_height (arrays s1 ! frame), img_width (arrays s1 ! frame)) = None"
  shows "apply_haircut env frame name g sid s
         = ((frame, True), s1\<lparr>trace := trace s1 @ [DetectFace frame]\<rparr>)"
  using assms by (simp add: apply_haircut_def Let_def)

lemma apply_composited:
  assumes "resolve_haircut_path env name g = Some p" "load_haircut env p g s = (Some hc, s1)"
    "detect_face env (arrays s1 ! frame) = Some lms"
    "get_hair_region lms (img_height (arrays s1 ! frame), img_width (arrays s1 ! frame)) = Some hr"
  shows "\<exists>t adj. apply_haircut env frame name g sid s
         = ((fst (overlay_haircut env frame t hr adj (arrays s1)), True),
            s1\<lparr>trace := trace s1 @ [DetectFace frame],
               arrays := snd (overlay_haircut env frame t hr adj (arrays s1))\<rparr>)"
  using assms by (simp add: apply_haircut_def Let_def split_beta) blast

lemma apply_cases:
  obtains
    (unresolved) "resolve_haircut_path env name g = None"
      "apply_haircut env frame name g sid s = ((frame, False), s)"
  | (not_loaded) p s1 where "resolve_haircut_path env name g = Some p"
      "load_haircut env p g s = (None, s1)"
      "apply_haircut env frame name g sid s = ((frame, False), s1)"
  | (no_face) p hc s1 where "resolve_haircut_path env name g = Some p"
      "load_haircut env p g s = (Some hc, s1)"
      "detect_face env (arrays s1 ! frame) = None"
      "apply_haircut env frame name g sid s
         = ((frame, False), s1\<lparr>trace := trace s1 @ [DetectFace frame]\<rparr>)"
  | (no_region) p hc s1 lms where "resolve_haircut_path env name g = Some p"
      "load_haircut env p g s = (Some hc, s1)"
      "detect_face env (arrays s1 ! frame) = Some lms"
      "get_hair_region lms (img_height (arrays s1 ! frame), img_width (arrays s1 ! frame))
         = None"
      "apply_haircut env frame name g sid s
         = ((frame, True), s1\<lparr>trace := trace s1 @ [DetectFace frame]\<rparr>)"
  | (composited) p hc s1 lms hr t adj where "resolve_haircut_path env name g = Some p"
      "load_haircut env p g s = (Some hc, s1)"
      "detect_face env (arrays s1 ! frame) = Some lms"
      "get_hair_region lms (img_height (arrays s1 ! frame), img_width (arrays s1 ! frame))
         = Some hr"
      "apply_haircut env frame name g sid s
         = ((fst (overlay_haircut env frame t hr adj (arrays s1)), True),
            s1\<lparr>trace := trace s1 @ [DetectFace frame],
               arrays := snd (overlay_haircut env frame t hr adj (arrays s1))\<rparr>)"
proof (cases "resolve_haircut_path env name g")
  case None
  then show ?thesis using apply_unresolved unresolved by blast
next
  case (Some p)
  obtain r s1 where l: "load_haircut env p g s = (r, s1)"
    by (cases "load_haircut env p g s")
  show ?thesis
  proof (cases r)
    case None
    then show ?thesis using apply_not_loaded [OF Some] l not_loaded Some by blast
  next
    case hc: (Some hc)
    note l' = l [unfolded hc]
    show ?thesis
    proof (cases "detect_face env (arrays s1 ! frame)")
      case None
      then show ?thesis using apply_no_face [OF Some l'] no_face Some l' by blast
    next
      case lms: (Some lms)
      show ?thesis
      proof (cases "get_hair_region lms
               (img_height (arrays s1 ! frame), img_width (arrays s1 ! frame))")
        case None
        then show ?thesis using apply_no_region [OF Some l' lms] no_region Some l' lms by blast
      next
        case hr: (Some hr)
        from apply_composited [OF Some l' lms hr] obtain t adj where
          "apply_haircut env frame name g sid s
           = ((fst (overlay_haircut env frame t hr adj (arrays s1)), True),
              s1\<lparr>trace := trace s1 @ [DetectFace frame],
                 arrays := snd (overlay_haircut env frame t hr adj (arrays s1))\<rparr>)"
          by blast
        then show ?thesis using composited Some l' lms hr by blast
      qed
    qed
  qed
qed

lemma loaded_nth:
  assumes "load_haircut env p g s = (r, s1)" "i < length (arrays s)"
  shows "arrays s1 ! i = arrays s ! i" "i < length (arrays s1)"
proof -
  from load_extends [of env p g s] assms(1) obtain ext where "arrays s1 = arrays s @ ext"
    by auto
  with assms(2) show "arrays s1 ! i = arrays s ! i" "i < length (arrays s1)"
    by (simp_all add: nth_append)
qed

lemma loaded_detector_calls:
  assumes "load_haircut env p g s = (r, s1)"
  shows "detector_calls s1 = detector_calls s"
  using load_detector_calls [of env p g s] assms by simp

lemma detector_calls_snoc:
  "detector_calls (s\<lparr>trace := trace s @ [DetectFace a]\<rparr>) = Suc (detector_calls s)"
  "detector_calls (s\<lparr>trace := trace s @ [DetectFace a], arrays := hp\<rparr>) = Suc (detector_calls s)"
  by (simp_all add: detector_calls_def is_detect_def)

lemma apply_detector_calls:
  assumes "resolve_haircut_path env name g = Some p" "load_haircut env p g s = (Some hc, s1)"
  shows "detector_calls (snd (apply_haircut env frame name g sid s)) = Suc (detector_calls s)"
proof (cases rule: apply_cases [of env name g frame sid s])
  case unresolved
  with assms show ?thesis by simp
next
  case (not_loaded p s1)
  with assms show ?thesis by simp
next
  case (no_face p' hc' s1')
  with assms loaded_detector_calls [OF assms(2)] show ?thesis
    by (simp add: detector_calls_snoc)
next
  case (no_region p' hc' s1' lms)
  with assms loaded_detector_calls [OF assms(2)] show ?thesis
    by (simp add: detector_calls_snoc)
next
  case (composited p' hc' s1' lms hr t adj)
  with assms loaded_detector_calls [OF assms(2)] show ?thesis
    by (simp add: detector_calls_snoc)
qed

lemma demo_resolve:
  "resolve_haircut_path demo_world ''fade.png'' ''male'' = Some demo_path"
  "resolve_haircut_path blind_world ''fade.png'' ''male'' = Some demo_path"
  "resolve_haircut_path short_world ''fade.png'' ''male'' = Some demo_path"
  by (simp_all add: resolve_haircut_path_def demo_world_def blind_world_def short_world_def
        demo_path_def)

lemma demo_load:
  assumes "path_exists env demo_path" "cv_imread env demo_path = Some (Array3D demo_asset)"
  shows "load_haircut env demo_path ''male'' demo_state
     = (Some 1, demo_state\<lparr>arrays := [demo_frame,
                 preprocess_haircut env (ensure_rgba (Array3D demo_asset)),
                 preprocess_haircut env (ensure_rgba (Array3D demo_asset))],
              haircut_cache := [(''male_fade.png'', 2)],
              trace := [Preprocess ''male_fade.png'']\<rparr>)"
proof -
  have "map_of (haircut_cache demo_state) (cache_key ''male'' demo_path) = None"
    by (simp add: demo_state_def init_state_def)
  from load_miss [OF assms(1) this assms(2)] show ?thesis
    by (simp add: demo_key demo_state_def init_state_def)
qed

text \<open>
  C9. \<^verbatim>\<open>overlay_haircut\<close>, and with it \<^verbatim>\<open>apply_haircut\<close>, never writes to the
  caller's frame: whatever the outcome (composited, returned as it was, or an exception
  caught), the array at the frame's address holds its original pixels after the call.
\<close>

theorem frame_never_mutated:
  "(frame < length hp \<longrightarrow>
      snd (overlay_haircut env frame haircut hr adjo hp) ! frame = hp ! frame)
   \<and> (frame < length (arrays s) \<longrightarrow>
      arrays (snd (apply_haircut env frame name g sid s)) ! frame = arrays s ! frame)"
proof (intro conjI impI)
  assume "frame < length hp"
  then show "snd (overlay_haircut env frame haircut hr adjo hp) ! frame = hp ! frame"
    by (rule overlay_frame_kept)
next
  assume fr: "frame < length (arrays s)"
  show "arrays (snd (apply_haircut env frame name g sid s)) ! frame = arrays s ! frame"
  proof (cases rule: apply_cases [of env name g frame sid s])
    case unresolved
    then show ?thesis by simp
  next
    case (not_loaded p s1)
    then show ?thesis using loaded_nth(1) [OF not_loaded(2) fr] by simp
  next
    case (no_face p hc s1)
    then show ?thesis using loaded_nth(1) [OF no_face(2) fr] by simp
  next
    case (no_region p hc s1 lms)
    then show ?thesis using loaded_nth(1) [OF no_region(2) fr] by simp
  next
    case (composited p hc s1 lms hr t adj)
    from loaded_nth [OF composited(2) fr]
    have "snd (overlay_haircut env frame t hr adj (arrays s1)) ! frame = arrays s ! frame"
      using overlay_frame_kept [of frame "arrays s1"] by simp
    then show ?thesis unfolding composited(5) by simp
  qed
qed

theorem frame_never_mutated_witness:
  "0 < length [demo_frame]
   \<and> snd (overlay_haircut demo_world 0 demo_asset wide_region None [demo_frame]) ! 0
       = demo_frame
   \<and> 0 < length (arrays demo_state)
   \<and> arrays (snd (apply_haircut demo_world 0 ''fade.png'' ''male'' None demo_state)) ! 0
       = demo_frame"
  using frame_never_mutated [where frame = 0 and hp = "[demo_frame]" and env = demo_world
      and haircut = demo_asset and hr = wide_region and adjo = None and s = demo_state
      and name = "''fade.png''" and g = "''male''" and sid = None]
  by (simp add: demo_state_def init_state_def)

text \<open>
  C2. For every frame (an array of the heap): if the detector returns no landmarks on
  it, \<^verbatim>\<open>apply_haircut\<close> returns the original frame, unchanged, with face\_detected =
  False; if the pipeline has called the detector, the detector has returned landmarks
  and the hair region is None, it returns the original frame, unchanged, with
  face\_detected = True.
\<close>

theorem pipeline_pass_through:
  assumes "frame < length (arrays s)"
  shows "(detect_face env (arrays s ! frame) = None \<longrightarrow>
            fst (apply_haircut env frame name g sid s) = (frame, False)
            \<and> arrays (snd (apply_haircut env frame name g sid s)) ! frame = arrays s ! frame)
       \<and> (detector_calls (snd (apply_haircut env frame name g sid s)) = Suc (detector_calls s)
          \<and> detect_face env (arrays s ! frame) = Some lms
          \<and> get_hair_region lms (img_height (arrays s ! frame), img_width (arrays s ! frame))
              = None \<longrightarrow>
            fst (apply_haircut env frame name g sid s) = (frame, True)
            \<and> arrays (snd (apply_haircut env frame name g sid s)) ! frame = arrays s ! frame)"
proof (cases rule: apply_cases [of env name g frame sid s])
  case unresolved
  then show ?thesis by simp
next
  case (not_loaded p s1)
  then show ?thesis
    using loaded_nth(1) [OF not_loaded(2) assms] loaded_detector_calls [OF not_loaded(2)]
    by simp
next
  case (no_face p hc s1)
  then show ?thesis
    using loaded_nth(1) [OF no_face(2) assms] by simp
next
  case (no_region p hc s1 lms')
  then show ?thesis
    using loaded_nth(1) [OF no_region(2) assms] by simp
next
  case (composited p hc s1 lms' hr t adj)
  from loaded_nth [OF composited(2) assms]
  have k: "arrays s1 ! frame = arrays s ! frame" "frame < length (arrays s1)" .
  show ?thesis
    using composited(3,4) unfolding k(1) by auto
qed

theorem pipeline_pass_through_witness:
  "0 < length (arrays demo_state)
   \<and> detect_face blind_world (arrays demo_state ! 0) = None
   \<and> fst (apply_haircut blind_world 0 ''fade.png'' ''male'' None demo_state) = (0, False)
   \<and> detector_calls (snd (apply_haircut short_world 0 ''fade.png'' ''male'' None demo_state))
       = Suc (detector_calls demo_state)
   \<and> detect_face short_world (arrays demo_state ! 0) = Some []
   \<and> get_hair_region [] (img_height (arrays demo_state ! 0), img_width (arrays demo_state ! 0))
       = None
   \<and> fst (apply_haircut short_world 0 ''fade.png'' ''male'' None demo_state) = (0, True)
   \<and> arrays (snd (apply_haircut short_world 0 ''fade.png'' ''male'' None demo_state)) ! 0
       = demo_frame"
proof -
  have fr: "0 < length (arrays demo_state)" and a0: "arrays demo_state ! 0 = demo_frame"
    by (simp_all add: demo_state_def init_state_def)
  have ch: "channels demo_frame = 3" by (simp add: channels_def demo_frame_def)
  have d1: "detect_face blind_world (arrays demo_state ! 0) = None"
    unfolding a0 by (simp add: detect_face_def ch blind_world_def demo_world_def)
  have d2: "detect_face short_world (arrays demo_state ! 0) = Some []"
    unfolding a0 by (simp add: detect_face_def ch short_world_def demo_world_def)
  have g: "get_hair_region []
       (img_height (arrays demo_state ! 0), img_width (arrays demo_state ! 0)) = None"
    by (simp add: get_hair_region_def get_forehead_region_def landmark_at_def)
  have c: "detector_calls (snd (apply_haircut short_world 0 ''fade.png'' ''male'' None demo_state))
       = Suc (detector_calls demo_state)"
    by (rule apply_detector_calls [OF demo_resolve(3) demo_load [OF demo_worlds_fs(5,6)]])
  from pipeline_pass_through [OF fr, of blind_world "''fade.png''" "''male''" None "[]"] d1
  have r1: "fst (apply_haircut blind_world 0 ''fade.png'' ''male'' None demo_state) = (0, False)"
    by blast
  from pipeline_pass_through [OF fr, of short_world "''fade.png''" "''male''" None "[]"] c d2 g
  have r2: "fst (apply_haircut short_world 0 ''fade.png'' ''male'' None demo_state) = (0, True)"
    and r3: "arrays (snd (apply_haircut short_world 0 ''fade.png'' ''male'' None demo_state)) ! 0
       = demo_frame"
    unfolding a0 by blast+
  from fr d1 r1 c d2 g r2 r3 show ?thesis by blast
qed

text \<open>
  C10. When the asset exists in none of the three locations (declared category, custom
  category, basename in custom), \<^verbatim>\<open>apply_haircut\<close> returns the original frame with
  face\_detected = False and leaves the state, trace included, as it was: the detector is
  not called. In general the detector is called only after the path has been resolved
  and \<^verbatim>\<open>load_haircut\<close> has returned a bitmap, and then once.
\<close>

theorem unresolved_asset_skips_detection:
  "(\<not> path_exists env (''app/static/haircuts/'' @ g @ ''/'' @ name)
    \<and> \<not> path_exists env (''app/static/haircuts/custom/'' @ name)
    \<and> \<not> path_exists env (''app/static/haircuts/custom/'' @ basename name)
    \<longrightarrow> apply_haircut env frame name g sid s = ((frame, False), s))
   \<and> (detector_calls (snd (apply_haircut env frame name g sid s)) \<noteq> detector_calls s
        \<longrightarrow> (\<exists>p hc s1. resolve_haircut_path env name g = Some p
                 \<and> load_haircut env p g s = (Some hc, s1)
                 \<and> detector_calls (snd (apply_haircut env frame name g sid s))
                     = Suc (detector_calls s1)))"
proof (intro conjI impI)
  assume "\<not> path_exists env (''app/static/haircuts/'' @ g @ ''/'' @ name)
    \<and> \<not> path_exists env (''app/static/haircuts/custom/'' @ name)
    \<and> \<not> path_exists env (''app/static/haircuts/custom/'' @ basename name)"
  then have "resolve_haircut_path env name g = None"
    by (simp add: resolve_haircut_path_def)
  then show "apply_haircut env frame name g sid s = ((frame, False), s)"
    by (rule apply_unresolved)
next
  assume d: "detector_calls (snd (apply_haircut env frame name g sid s)) \<noteq> detector_calls s"
  show "\<exists>p hc s1. resolve_haircut_path env name g = Some p
                 \<and> load_haircut env p g s = (Some hc, s1)
                 \<and> detector_calls (snd (apply_haircut env frame name g sid s))
                     = Suc (detector_calls s1)"
  proof (cases rule: apply_cases [of env name g frame sid s])
    case unresolved
    with d show ?thesis by simp
  next
    case (not_loaded p s1)
    with d loaded_detector_calls [OF not_loaded(2)] show ?thesis by simp
  next
    case (no_face p hc s1)
    then show ?thesis by (simp add: detector_calls_snoc)
  next
    case (no_region p hc s1 lms)
    then show ?thesis by (simp add: detector_calls_snoc)
  next
    case (composited p hc s1 lms hr t adj)
    then show ?thesis by (simp add: detector_calls_snoc)
  qed
qed

theorem unresolved_asset_skips_detection_witness:
  "\<not> path_exists demo_world (''app/static/haircuts/'' @ ''male'' @ ''/'' @ ''mohawk.png'')
   \<and> \<not> path_exists demo_world (''app/static/haircuts/custom/'' @ ''mohawk.png'')
   \<and> \<not> path_exists demo_world (''app/static/haircuts/custom/'' @ basename ''mohawk.png'')
   \<and> apply_haircut demo_world 0 ''mohawk.png'' ''male'' None demo_state
       = ((0, False), demo_state)
   \<and> detector_calls (snd (apply_haircut demo_world 0 ''fade.png'' ''male'' None demo_state))
       \<noteq> detector_calls demo_state
   \<and> resolve_haircut_path demo_world ''fade.png'' ''male'' = Some demo_path"
proof -
  have n: "\<not> path_exists demo_world (''app/static/haircuts/'' @ ''male'' @ ''/'' @ ''mohawk.png'')
   \<and> \<not> path_exists demo_world (''app/static/haircuts/custom/'' @ ''mohawk.png'')
   \<and> \<not> path_exists demo_world (''app/static/haircuts/custom/'' @ basename ''mohawk.png'')"
    by (simp add: demo_world_def demo_path_def basename_def)
  have c: "detector_calls (snd (apply_haircut demo_world 0 ''fade.png'' ''male'' None demo_state))
       \<noteq> detector_calls demo_state"
    using apply_detector_calls [OF demo_resolve(1) demo_load [OF demo_worlds_fs(1,2)]]
    by simp
  from unresolved_asset_skips_detection
         [of demo_world "''male''" "''mohawk.png''" 0 None demo_state] n
  have r: "apply_haircut demo_world 0 ''mohawk.png'' ''male'' None demo_state
       = ((0, False), demo_state)" by blast
  from unresolved_asset_skips_detection
         [of demo_world "''male''" "''fade.png''" 0 None demo_state] c
  have "resolve_haircut_path demo_world ''fade.png'' ''male'' = Some demo_path"
    using demo_resolve(1) by blast
  with n r c show ?thesis by blast
qed

subsection \<open>The colour match\<close>









end
